theory Spec2Isabelle
  imports Complex_Main "HOL-Library.Word"
begin

section \<open>The memory tracer and its collaborators\<close>

text \<open>
  The class \<open>MemoryTracer\<close> of \<open>memory_tracer.py\<close> drives three collaborators:
  the module \<open>tracemalloc\<close>, the garbage collector \<open>gc\<close> and a logging callable.
  None of them is code of the repository. They are modelled by what the tracer
  observes of them:
  \<^item> the process-wide flag \<open>tracemalloc.is_tracing()\<close> is a field of the world;
  \<^item> every call the tracer makes to a collaborator is appended, in program order,
    to the event list of the world;
  \<^item> the snapshot that \<open>tracemalloc.take_snapshot()\<close> delivers at a call is an
    argument of the operation that asks for it (the tracer cannot choose it);
  \<^item> \<open>Snapshot.compare_to\<close> and \<open>Snapshot.statistics\<close> and the range check of
    \<open>tracemalloc.start\<close> are the fields of a facility record, taken as a parameter.
  Three failures of \<open>tracemalloc\<close> depend on what the tracer hands over and are
  branches of the model: \<open>start(nframe)\<close> refuses a frame count outside its range,
  \<open>take_snapshot()\<close> refuses to run while tracing is off, and \<open>compare_to\<close> fails
  on \<open>None\<close>. The logger, the garbage collector and \<open>statistics\<close> are taken to return.
\<close>

subsection \<open>Values\<close>

datatype key_type = Filename | Lineno | Traceback

text \<open>A \<open>tracemalloc.Statistic\<close>, by the attributes \<open>update\<close> reads:
  \<open>str(stat)\<close>, \<open>stat.count\<close>, \<open>stat.size\<close> and \<open>stat.traceback.format()\<close>.
  The size of a site is the number of bytes of its blocks in the snapshot. These
  blocks are live at once and \<open>tracemalloc\<close> counts their bytes in a C \<open>size_t\<close>,
  so a size is a 64-bit word.\<close>

record statistic =
  stat_str :: string
  stat_count :: int
  stat_size :: "64 word"
  stat_traceback :: "string list"

text \<open>A \<open>tracemalloc.StatisticDiff\<close>; \<open>update\<close> reads \<open>str(diff)\<close> only.\<close>

record statistic_diff =
  diff_str :: string
  size_diff :: int
  count_diff :: int

text \<open>Positional arguments handed to the logger. A Python float is given by its
  value, a rational number.\<close>

datatype pyarg = PyStr string | PyInt int | PyFloat rat

datatype pyval = PyNone | PySelf

datatype facility_failure = NframeOutOfRange | NotTracing | NoOldSnapshot

datatype error = RuntimeError string | FacilityError facility_failure

definition AlreadyTracingError :: error where
  "AlreadyTracingError = RuntimeError ''Cannot start to trace when already tracing''"

datatype 'a outcome = Returned 'a | Raised error

datatype 's event =
    IsTracing
  | TracemallocStart int
  | TracemallocStop
  | TakeSnapshot
  | CompareTo 's "'s option" key_type
  | Statistics 's key_type
  | GcCollect
  | Log string "pyarg list"

record 's facility =
  nframe_ok :: "int \<Rightarrow> bool"
  compare_to :: "'s \<Rightarrow> 's \<Rightarrow> key_type \<Rightarrow> statistic_diff list"
  statistics :: "'s \<Rightarrow> key_type \<Rightarrow> statistic list"

record 's world =
  tracing :: bool
  events :: "'s event list"

text \<open>The attributes of a \<open>MemoryTracer\<close> instance; \<open>mt_start\<close> and \<open>mt_prev\<close> are
  \<open>self._start\<close> and \<open>self._prev\<close>. The attribute \<open>log\<close> is the logger collaborator.\<close>

record 's tracer =
  mt_top :: int
  mt_trace :: int
  mt_nframe :: int
  mt_gccollect :: bool
  mt_disabled :: bool
  mt_start :: "'s option"
  mt_prev :: "'s option"

type_synonym ('s, 'a) result = "'a outcome \<times> 's tracer \<times> 's world"

subsection \<open>Python primitives\<close>

definition newline :: char where
  "newline = CHR 0x0A"

text \<open>\<open>xs[:n]\<close>: a negative bound counts from the end.\<close>

definition slice_to :: "int \<Rightarrow> 'a list \<Rightarrow> 'a list" where
  "slice_to n xs = (if 0 \<le> n then take (nat n) xs else take (nat (int (length xs) + n)) xs)"

fun join :: "string \<Rightarrow> string list \<Rightarrow> string" where
  "join sep [] = []"
| "join sep [x] = x"
| "join sep (x # y # ys) = x @ sep @ join sep (y # ys)"

fun decimal :: "nat \<Rightarrow> string" where
  "decimal n = (if n < 10 then [char_of (48 + n)]
                else decimal (n div 10) @ [char_of (48 + n mod 10)])"

declare decimal.simps [simp del]

text \<open>\<open>f"{i:-2}"\<close>: the decimal digits, right-aligned in a field of width 2.\<close>

definition format_index :: "nat \<Rightarrow> string" where
  "format_index i = replicate (2 - length (decimal i)) CHR '' '' @ decimal i"

text \<open>\<open>n.bit_length()\<close>.\<close>

fun bit_length :: "nat \<Rightarrow> nat" where
  "bit_length n = (if n = 0 then 0 else Suc (bit_length (n div 2)))"

declare bit_length.simps [simp del]

text \<open>The conversion of a non-negative \<open>int\<close> to a float: the nearest number with a
  significand of 53 bits, a tie going to the even significand. With \<open>e\<close> bits
  too many, \<open>q\<close> is the significand cut off and \<open>r\<close> the part that is lost.\<close>

definition round_53 :: "nat \<Rightarrow> nat" where
  "round_53 n =
     (let e = bit_length n - 53; q = n div 2 ^ e; r = n mod 2 ^ e in
      if 2 * r < 2 ^ e \<or> (2 * r = 2 ^ e \<and> even q) then q * 2 ^ e else (q + 1) * 2 ^ e)"

text \<open>\<open>n / 1024\<close> for an \<open>int\<close> \<open>n\<close> with \<open>0 \<le> n < 2 ** 64\<close>. True division of
  two \<open>int\<close>s yields the float nearest to the quotient, ties to even. The divisor
  is \<open>2 ** 10\<close> and the quotient is zero or lies between \<open>2 ** -10\<close> and
  \<open>2 ** 54\<close>, so dividing only lowers the exponent: the float is the rounded
  numerator over 1024, and it is far inside the range of a float.\<close>

definition truediv_1024 :: "nat \<Rightarrow> rat" where
  "truediv_1024 n = rat_of_nat (round_53 n) / 1024"

definition emit :: "'s event \<Rightarrow> 's world \<Rightarrow> 's world" where
  "emit e w = w\<lparr>events := events w @ [e]\<rparr>"

subsection \<open>The class\<close>

definition init :: "int \<Rightarrow> int \<Rightarrow> int \<Rightarrow> bool \<Rightarrow> bool \<Rightarrow> 's tracer" where
  "init top_arg trace_arg nframe_arg gccollect_arg disabled_arg =
     \<lparr>mt_top = top_arg, mt_trace = trace_arg, mt_nframe = nframe_arg,
      mt_gccollect = gccollect_arg, mt_disabled = disabled_arg,
      mt_start = None, mt_prev = None\<rparr>"

definition init_default :: "'s tracer" where
  "init_default = init 20 1 25 True False"

text \<open>\<open>start\<close>; the first argument is the snapshot \<open>take_snapshot()\<close> delivers here.\<close>

definition start :: "'s facility \<Rightarrow> 's \<Rightarrow> 's tracer \<Rightarrow> 's world \<Rightarrow> ('s, pyval) result" where
  "start F snap tr w =
     (if mt_disabled tr then (Returned PySelf, tr, w)
      else
        let w1 = emit IsTracing w in
        if tracing w1 then (Raised AlreadyTracingError, tr, w1)
        else
          let w2 = emit (Log ''Starting memory tracer'' []) w1;
              w3 = emit (TracemallocStart (mt_nframe tr)) w2 in
          if \<not> nframe_ok F (mt_nframe tr)
          then (Raised (FacilityError NframeOutOfRange), tr, w3)
          else
            let w4 = emit TakeSnapshot (w3\<lparr>tracing := True\<rparr>);
                tr1 = tr\<lparr>mt_start := Some snap\<rparr>;
                tr2 = tr1\<lparr>mt_prev := mt_start tr1\<rparr>
            in (Returned PyNone, tr2, w4))"

definition stop :: "'s tracer \<Rightarrow> 's world \<Rightarrow> ('s, pyval) result" where
  "stop tr w =
     (if mt_disabled tr then (Returned PyNone, tr, w)
      else
        let tr1 = tr\<lparr>mt_start := None\<rparr>;
            tr2 = tr1\<lparr>mt_prev := None\<rparr>;
            w1 = emit TracemallocStop w;
            w2 = w1\<lparr>tracing := False\<rparr>;
            w3 = emit (Log ''Stopped memory tracer'' []) w2
        in (Returned PyNone, tr2, w3))"

definition format_stats :: "('a \<Rightarrow> string) \<Rightarrow> 'a list \<Rightarrow> string" where
  "format_stats str stats =
     join [newline] (map (\<lambda>(i, s). format_index i @ '': '' @ str s) (enumerate 1 stats))"

definition traceback_log :: "statistic \<Rightarrow> 's event" where
  "traceback_log stat =
     Log (''memory_blocks=%s size_KiB=%.1f'' @ [newline] @ ''%s'')
       [PyInt (stat_count stat),
        PyFloat (truediv_1024 (unat (stat_size stat))),
        PyStr (join [newline] (stat_traceback stat))]"

text \<open>The loop \<open>for stat in traces[: self.trace]\<close>.\<close>

fun log_traces :: "statistic list \<Rightarrow> 's world \<Rightarrow> 's world" where
  "log_traces [] w = w"
| "log_traces (stat # rest) w = log_traces rest (emit (traceback_log stat) w)"

definition update :: "'s facility \<Rightarrow> 's \<Rightarrow> 's tracer \<Rightarrow> 's world \<Rightarrow> ('s, pyval) result" where
  "update F current tr w =
     (if mt_disabled tr then (Returned PyNone, tr, w)
      else
        let w1 = (if mt_gccollect tr then emit GcCollect w else w);
            w2 = emit TakeSnapshot w1 in
        if \<not> tracing w2 then (Raised (FacilityError NotTracing), tr, w2)
        else
          let w3 = emit (CompareTo current (mt_start tr) Filename) w2 in
          case mt_start tr of
            None \<Rightarrow> (Raised (FacilityError NoOldSnapshot), tr, w3)
          | Some s0 \<Rightarrow>
              let cumulative_stats = compare_to F current s0 Filename;
                  w4 = emit (CompareTo current (mt_prev tr) Lineno) w3 in
              case mt_prev tr of
                None \<Rightarrow> (Raised (FacilityError NoOldSnapshot), tr, w4)
              | Some p \<Rightarrow>
                  let incremental_stats = compare_to F current p Lineno;
                      w5 = emit (Log (''Top cumulative stats since start:'' @ [newline] @ ''%s'')
                             [PyStr (format_stats diff_str (slice_to (mt_top tr) cumulative_stats))]) w4;
                      w6 = emit (Log (''Top incremental stats since previous:'' @ [newline] @ ''%s'')
                             [PyStr (format_stats diff_str (slice_to (mt_top tr) incremental_stats))]) w5;
                      w7 = emit (Statistics current Filename) w6;
                      w8 = emit (Log (''Top current stats:'' @ [newline] @ ''%s'')
                             [PyStr (format_stats stat_str
                                (slice_to (mt_top tr) (statistics F current Filename)))]) w7;
                      w9 = emit (Statistics current Traceback) w8;
                      traces = statistics F current Traceback;
                      w10 = log_traces (slice_to (mt_trace tr) traces) w9
                  in (Returned PyNone, tr\<lparr>mt_prev := Some current\<rparr>, w10))"

text \<open>\<open>__enter__\<close> and \<open>__exit__\<close>.\<close>

definition enter :: "'s facility \<Rightarrow> 's \<Rightarrow> 's tracer \<Rightarrow> 's world \<Rightarrow> ('s, pyval) result" where
  "enter F snap tr w =
     (case start F snap tr w of
        (Raised e, tr1, w1) \<Rightarrow> (Raised e, tr1, w1)
      | (Returned v, tr1, w1) \<Rightarrow> (Returned PySelf, tr1, w1))"

definition exit :: "'s tracer \<Rightarrow> 's world \<Rightarrow> ('s, pyval) result" where
  "exit tr w =
     (case stop tr w of
        (Raised e, tr1, w1) \<Rightarrow> (Raised e, tr1, w1)
      | (Returned v, tr1, w1) \<Rightarrow> (Returned PyNone, tr1, w1))"

text \<open>The statement \<open>with tracer as mt: body\<close>. When \<open>__enter__\<close> raises, neither
  the body nor \<open>__exit__\<close> runs. Otherwise the body runs with the value of
  \<open>__enter__\<close>, then \<open>__exit__\<close> runs whatever the body did; \<open>__exit__\<close> returns \<open>None\<close>,
  so an error of the body is raised again after it.\<close>

definition with_tracer ::
  "'s facility \<Rightarrow> 's \<Rightarrow> (pyval \<Rightarrow> 's tracer \<Rightarrow> 's world \<Rightarrow> ('s, pyval) result) \<Rightarrow>
     's tracer \<Rightarrow> 's world \<Rightarrow> ('s, pyval) result" where
  "with_tracer F snap body tr w =
     (case enter F snap tr w of
        (Raised e, tr1, w1) \<Rightarrow> (Raised e, tr1, w1)
      | (Returned mt, tr1, w1) \<Rightarrow>
          (case body mt tr1 w1 of
             (r, tr2, w2) \<Rightarrow>
               (case exit tr2 w2 of
                  (Raised e, tr3, w3) \<Rightarrow> (Raised e, tr3, w3)
                | (Returned v, tr3, w3) \<Rightarrow> (r, tr3, w3))))"

subsection \<open>Call sequences\<close>

text \<open>A caller's sequence of method calls on one tracer. A call that asks for a
  snapshot carries the one the facility delivers; a caller that catches an error
  goes on with the state the failed call left.\<close>

datatype 's call = Start 's | Update 's | Stop

fun step :: "'s facility \<Rightarrow> 's call \<Rightarrow> 's tracer \<times> 's world \<Rightarrow> 's tracer \<times> 's world" where
  "step F (Start s) (tr, w) = snd (start F s tr w)"
| "step F (Update s) (tr, w) = snd (update F s tr w)"
| "step F Stop (tr, w) = snd (stop tr w)"

fun run :: "'s facility \<Rightarrow> 's call list \<Rightarrow> 's tracer \<times> 's world \<Rightarrow> 's tracer \<times> 's world" where
  "run F [] st = st"
| "run F (c # cs) st = run F cs (step F c st)"

text \<open>The collaborator calls made between two worlds.\<close>

definition new_events :: "'s world \<Rightarrow> 's world \<Rightarrow> 's event list" where
  "new_events w w' = drop (length (events w)) (events w')"

text \<open>The collaborator calls of an \<open>update\<close> that runs to its end, in program order,
  for a baseline \<open>s0\<close> and a previous snapshot \<open>p\<close>.\<close>

definition update_calls :: "'s facility \<Rightarrow> 's \<Rightarrow> 's tracer \<Rightarrow> 's \<Rightarrow> 's \<Rightarrow> 's event list" where
  "update_calls F current tr s0 p =
     (if mt_gccollect tr then [GcCollect] else []) @
     [TakeSnapshot,
      CompareTo current (Some s0) Filename,
      CompareTo current (Some p) Lineno,
      Log (''Top cumulative stats since start:'' @ [newline] @ ''%s'')
        [PyStr (format_stats diff_str (slice_to (mt_top tr) (compare_to F current s0 Filename)))],
      Log (''Top incremental stats since previous:'' @ [newline] @ ''%s'')
        [PyStr (format_stats diff_str (slice_to (mt_top tr) (compare_to F current p Lineno)))],
      Statistics current Filename,
      Log (''Top current stats:'' @ [newline] @ ''%s'')
        [PyStr (format_stats stat_str (slice_to (mt_top tr) (statistics F current Filename)))],
      Statistics current Traceback] @
     map traceback_log (slice_to (mt_trace tr) (statistics F current Traceback))"

subsection \<open>A concrete facility\<close>

text \<open>A small facility on which the theorems below are run: a snapshot is the number
  of live bytes, a comparison has three rows and the statistics have three sites,
  biggest first.\<close>

definition demo_diffs :: "nat \<Rightarrow> nat \<Rightarrow> key_type \<Rightarrow> statistic_diff list" where
  "demo_diffs new old key =
     [\<lparr>diff_str = ''a.py'', size_diff = int new - int old, count_diff = 1\<rparr>,
      \<lparr>diff_str = ''b.py'', size_diff = 0, count_diff = 0\<rparr>,
      \<lparr>diff_str = ''c.py'', size_diff = 0, count_diff = 0\<rparr>]"

definition demo_stats :: "nat \<Rightarrow> key_type \<Rightarrow> statistic list" where
  "demo_stats cur key =
     [\<lparr>stat_str = ''a.py'', stat_count = 3, stat_size = 3072, stat_traceback = [''a.py:1'', ''a.py:9'']\<rparr>,
      \<lparr>stat_str = ''b.py'', stat_count = 2, stat_size = 2048, stat_traceback = [''b.py:2'']\<rparr>,
      \<lparr>stat_str = ''c.py'', stat_count = 1, stat_size = 512, stat_traceback = [''c.py:3'']\<rparr>]"

definition demo_facility :: "nat facility" where
  "demo_facility =
     \<lparr>nframe_ok = (\<lambda>n. 1 \<le> n \<and> n \<le> 65535), compare_to = demo_diffs, statistics = demo_stats\<rparr>"

definition demo_tracer :: "nat tracer" where
  "demo_tracer = init 2 1 25 True False"

definition demo_world :: "nat world" where
  "demo_world = \<lparr>tracing = False, events = []\<rparr>"

text \<open>Guarded code that takes one checkpoint and then fails.\<close>

definition demo_body :: "pyval \<Rightarrow> nat tracer \<Rightarrow> nat world \<Rightarrow> (nat, pyval) result" where
  "demo_body mt tr w =
     (case update demo_facility 7 tr w of
        (Raised e, tr1, w1) \<Rightarrow> (Raised e, tr1, w1)
      | (Returned v, tr1, w1) \<Rightarrow> (Raised (RuntimeError ''boom''), tr1, w1))"

text \<open>Guarded code that fails at once.\<close>

definition failing_body :: "pyval \<Rightarrow> nat tracer \<Rightarrow> nat world \<Rightarrow> (nat, pyval) result" where
  "failing_body mt tr w = (Raised (RuntimeError ''boom''), tr, w)"

text \<open>The demo tracer after \<open>start\<close> with a baseline of 0 bytes, and after one
  checkpoint at 5 bytes.\<close>

definition demo_started :: "nat tracer \<times> nat world" where
  "demo_started = snd (start demo_facility 0 demo_tracer demo_world)"

definition demo_checked :: "nat tracer \<times> nat world" where
  "demo_checked = run demo_facility [Update 5] demo_started"

definition demo_update :: "(nat, pyval) result" where
  "demo_update = update demo_facility 7 (fst demo_checked) (snd demo_checked)"

text \<open>A caller that stops before starting, checkpoints without a session, starts
  twice and stops twice.\<close>

definition demo_calls :: "nat call list" where
  "demo_calls = [Stop, Update 3, Start 1, Start 2, Stop, Stop]"

text \<open>A world in which other code has already switched \<open>tracemalloc\<close> on.\<close>

definition busy_world :: "nat world" where
  "busy_world = \<lparr>tracing = True, events = []\<rparr>"

section \<open>Basic facts\<close>

lemma events_emit: "events (emit e w) = events w @ [e]"
  by (simp add: emit_def)

lemma tracing_emit: "tracing (emit e w) = tracing w"
  by (simp add: emit_def)

lemma events_log_traces: "events (log_traces xs w) = events w @ map traceback_log xs"
  by (induction xs arbitrary: w) (simp_all add: events_emit)

lemma tracing_log_traces: "tracing (log_traces xs w) = tracing w"
  by (induction xs arbitrary: w) (simp_all add: tracing_emit)

lemma new_events_append: "events w' = events w @ xs \<Longrightarrow> new_events w w' = xs"
  by (simp add: new_events_def)

lemma length_slice_to: "0 \<le> n \<Longrightarrow> length (slice_to n xs) \<le> nat n"
  by (simp add: slice_to_def)

lemma slice_to_take: "0 \<le> n \<Longrightarrow> slice_to n xs = take (nat n) xs"
  by (simp add: slice_to_def)

text \<open>The float of \<open>n / 1024\<close>: the bit length bounds \<open>n\<close> from both sides; below
  \<open>2 ^ 53\<close> nothing is rounded; rounding moves \<open>n\<close> by at most half a unit of the
  last kept bit, so the float is never further from the quotient than the
  quotient times \<open>2 ^ - 53\<close>; and two sizes at which it is not the quotient.\<close>

lemma bit_length_le: "n < 2 ^ k \<Longrightarrow> bit_length n \<le> k"
proof (induction k arbitrary: n)
  case 0
  then show ?case by (simp add: bit_length.simps)
next
  case (Suc k)
  show ?case
  proof (cases "n = 0")
    case True
    then show ?thesis by (simp add: bit_length.simps)
  next
    case False
    from Suc.prems have "n div 2 < 2 ^ k" by simp
    then have "bit_length (n div 2) \<le> k" by (rule Suc.IH)
    with False show ?thesis by (subst bit_length.simps) simp
  qed
qed

lemma bit_length_lower: "n \<noteq> 0 \<Longrightarrow> 2 ^ bit_length n \<le> 2 * n"
proof (induction n rule: bit_length.induct)
  case (1 n)
  show ?case
  proof (cases "n div 2 = 0")
    case True
    with 1 have "n = 1" by (simp add: div_eq_0_iff) 
    then show ?thesis by (simp add: bit_length.simps [of "Suc 0"] bit_length.simps [of 0])
  next
    case False
    with 1 have "2 ^ bit_length (n div 2) \<le> 2 * (n div 2)" by simp
    also have "\<dots> \<le> n" by simp
    finally have "2 * 2 ^ bit_length (n div 2) \<le> 2 * n" by simp
    with 1(2) show ?thesis by (subst bit_length.simps) simp
  qed
qed

lemma round_53_exact: "n < 2 ^ 53 \<Longrightarrow> round_53 n = n"
proof -
  assume "n < 2 ^ 53"
  then have "bit_length n \<le> 53" by (rule bit_length_le)
  then have "bit_length n - 53 = 0" by simp
  then show ?thesis by (simp add: round_53_def)
qed

lemma round_53_half_ulp:
  "2 * \<bar>int (round_53 n) - int n\<bar> \<le> 2 ^ (bit_length n - 53)"
proof -
  define e where "e = bit_length n - 53"
  define q where "q = n div 2 ^ e"
  define r where "r = n mod 2 ^ e"
  have n: "n = q * 2 ^ e + r"
    unfolding q_def r_def by (rule div_mult_mod_eq [symmetric])
  have r: "r < 2 ^ e"
    unfolding r_def by simp
  show ?thesis
  proof (cases "2 * r < 2 ^ e \<or> (2 * r = 2 ^ e \<and> even q)")
    case True
    then have "round_53 n = q * 2 ^ e"
      by (simp add: round_53_def Let_def e_def [symmetric] q_def [symmetric] r_def [symmetric])
    moreover from True have "2 * r \<le> 2 ^ e" by auto
    then have "2 * int r \<le> 2 ^ e" by (metis of_nat_le_iff of_nat_mult of_nat_numeral of_nat_power)
    ultimately show ?thesis
      unfolding e_def [symmetric] by (subst (2) n) simp
  next
    case False
    then have "round_53 n = (q + 1) * 2 ^ e"
      by (simp add: round_53_def Let_def e_def [symmetric] q_def [symmetric] r_def [symmetric])
    then have i: "int (round_53 n) - int n = 2 ^ e - int r"
      by (subst (2) n) (simp add: algebra_simps)
    from False have "2 ^ e \<le> 2 * r" by auto
    then have "2 ^ e \<le> 2 * int r" by (metis of_nat_le_iff of_nat_mult of_nat_numeral of_nat_power)
    moreover from r have "int r < 2 ^ e" by (metis of_nat_less_iff of_nat_numeral of_nat_power)
    ultimately show ?thesis
      unfolding e_def [symmetric] i by simp
  qed
qed

lemma bit_length_upper: "n < 2 ^ bit_length n"
proof (induction n rule: bit_length.induct)
  case (1 n)
  show ?case
  proof (cases "n = 0")
    case True
    then show ?thesis by simp
  next
    case False
    with 1 have "n div 2 < 2 ^ bit_length (n div 2)" by simp
    then have "n < 2 * 2 ^ bit_length (n div 2)" by linarith
    with False show ?thesis by (subst bit_length.simps) simp
  qed
qed

lemma bit_length_eq: "2 ^ k \<le> n \<Longrightarrow> n < 2 ^ Suc k \<Longrightarrow> bit_length n = Suc k"
proof -
  assume a: "2 ^ k \<le> n" and b: "n < 2 ^ Suc k"
  from b have "bit_length n \<le> Suc k" by (rule bit_length_le)
  moreover have "k < bit_length n"
  proof (rule ccontr)
    assume "\<not> k < bit_length n"
    then have "(2::nat) ^ bit_length n \<le> 2 ^ k" by (simp add: power_increasing)
    with bit_length_upper [of n] a show False by linarith
  qed
  ultimately show ?thesis by simp
qed

lemma truediv_1024_rounds: "truediv_1024 (2 ^ 53 + 1) = 8796093022208"
proof -
  have "bit_length (2 ^ 53 + 1) = Suc 53"
    by (rule bit_length_eq) simp_all
  then show ?thesis
    by (simp add: truediv_1024_def round_53_def)
qed

lemma truediv_1024_far: "truediv_1024 (2 ^ 60 + 100) = 1125899906842624"
proof -
  have "bit_length (2 ^ 60 + 100) = Suc 60"
    by (rule bit_length_eq) simp_all
  then show ?thesis
    by (simp add: truediv_1024_def round_53_def)
qed

lemma truediv_1024_exact: "n < 2 ^ 53 \<Longrightarrow> truediv_1024 n = of_nat n / 1024"
  by (simp add: truediv_1024_def round_53_exact)

lemma truediv_1024_nearest:
  "\<bar>truediv_1024 n - of_nat n / 1024\<bar> * 2 ^ 53 \<le> of_nat n / 1024"
proof (cases "n < 2 ^ 53")
  case True
  then show ?thesis by (simp add: truediv_1024_exact)
next
  case False
  then have n53: "2 ^ 53 \<le> n" by simp
  define e where "e = bit_length n - 53"
  have "53 < bit_length n"
  proof (rule ccontr)
    assume "\<not> 53 < bit_length n"
    then have "bit_length n \<le> 53" by simp
    then have "(2::nat) ^ bit_length n \<le> 2 ^ 53" by (intro power_increasing) simp_all
    with bit_length_upper [of n] n53 show False by linarith
  qed
  then have bl: "bit_length n = e + 53" by (simp add: e_def)
  from n53 have "n \<noteq> 0" by auto
  from bit_length_lower [OF this] have "(2::nat) ^ e * 2 ^ 53 \<le> 2 * n"
    by (simp add: bl power_add)
  then have "int ((2::nat) ^ e * 2 ^ 53) \<le> int (2 * n)"
    by (simp only: of_nat_le_iff)
  then have low: "(2::int) ^ e * 2 ^ 53 \<le> 2 * int n"
    by simp
  from round_53_half_ulp [of n] have "2 * \<bar>int (round_53 n) - int n\<bar> \<le> 2 ^ e"
    by (simp add: e_def)
  then have "2 * \<bar>int (round_53 n) - int n\<bar> * 2 ^ 53 \<le> 2 ^ e * 2 ^ 53"
    by (simp only: mult_le_cancel_right) simp
  with low have "\<bar>int (round_53 n) - int n\<bar> * 2 ^ 53 \<le> int n"
    by linarith
  then have "rat_of_int (\<bar>int (round_53 n) - int n\<bar> * 2 ^ 53) \<le> rat_of_int (int n)"
    by (simp only: of_int_le_iff)
  then have r: "\<bar>rat_of_nat (round_53 n) - rat_of_nat n\<bar> * 2 ^ 53 \<le> rat_of_nat n"
    by simp
  have "\<bar>truediv_1024 n - of_nat n / 1024\<bar> = \<bar>rat_of_nat (round_53 n) - rat_of_nat n\<bar> / 1024"
    by (simp add: truediv_1024_def diff_divide_distrib [symmetric])
  with r show ?thesis
    by (simp add: divide_le_cancel)
qed

text \<open>An enabled \<open>update\<close> with tracing on and both snapshots present runs to its end.\<close>

lemma update_enabled:
  assumes "\<not> mt_disabled tr" "tracing w" "mt_start tr = Some s0" "mt_prev tr = Some p"
  shows "\<exists>w'. update F current tr w = (Returned PyNone, tr\<lparr>mt_prev := Some current\<rparr>, w')
           \<and> tracing w' \<and> events w' = events w @ update_calls F current tr s0 p"
  using assms
  by (simp add: update_def Let_def events_emit tracing_emit events_log_traces
        tracing_log_traces update_calls_def)

text \<open>No operation writes the configuration; \<open>update\<close> writes neither the baseline
  nor the tracing flag.\<close>

lemma start_disabled: "mt_disabled (fst (snd (start F s tr w))) = mt_disabled tr"
  by (simp add: start_def Let_def)

lemma stop_disabled: "mt_disabled (fst (snd (stop tr w))) = mt_disabled tr"
  by (simp add: stop_def Let_def)

lemma update_disabled: "mt_disabled (fst (snd (update F s tr w))) = mt_disabled tr"
  by (simp add: update_def Let_def split: option.splits)

lemma step_disabled: "mt_disabled (fst (step F c st)) = mt_disabled (fst st)"
  by (cases c; cases st) (simp_all add: start_disabled stop_disabled update_disabled)

lemma run_disabled: "mt_disabled (fst (run F cs st)) = mt_disabled (fst st)"
  by (induction cs arbitrary: st) (simp_all add: step_disabled)

lemma update_keeps:
  "mt_start (fst (snd (update F s tr w))) = mt_start tr \<and>
   tracing (snd (snd (update F s tr w))) = tracing w"
  by (simp add: update_def Let_def tracing_emit tracing_log_traces split: option.splits)

lemma run_updates_keeps:
  "mt_start (fst (run F (map Update ss) (tr, w))) = mt_start tr \<and>
   tracing (snd (run F (map Update ss) (tr, w))) = tracing w \<and>
   mt_disabled (fst (run F (map Update ss) (tr, w))) = mt_disabled tr"
proof (induction ss arbitrary: tr w)
  case Nil
  show ?case by simp
next
  case (Cons s ss)
  obtain r tr1 w1 where u: "update F s tr w = (r, tr1, w1)"
    by (cases "update F s tr w") auto
  have "mt_start tr1 = mt_start tr" "tracing w1 = tracing w" "mt_disabled tr1 = mt_disabled tr"
    using update_keeps [of F s tr w] update_disabled [of F s tr w] u by simp_all
  with Cons.IH [of tr1 w1] u show ?case by simp
qed

text \<open>After a run of checkpoints the previous snapshot is the last one taken.\<close>

lemma run_updates_prev:
  assumes "\<not> mt_disabled tr" "tracing w" "mt_start tr = Some b" "mt_prev tr = Some p"
  shows "mt_prev (fst (run F (map Update ss) (tr, w))) = Some (last (p # ss))"
  using assms
proof (induction ss arbitrary: tr w p)
  case Nil
  then show ?case by simp
next
  case (Cons s ss)
  from update_enabled [OF Cons.prems, of F s] obtain w' where
    u: "update F s tr w = (Returned PyNone, tr\<lparr>mt_prev := Some s\<rparr>, w')" and t: "tracing w'"
    by blast
  have "mt_prev (fst (run F (map Update ss) (tr\<lparr>mt_prev := Some s\<rparr>, w'))) = Some (last (s # ss))"
    by (rule Cons.IH) (use Cons.prems t in simp_all)
  with u show ?case by simp
qed

text \<open>What a \<open>start\<close> that returned on an enabled tracer has done.\<close>

lemma start_returned:
  assumes "\<not> mt_disabled tr" "start F b tr w = (Returned r, tr1, w1)"
  shows "r = PyNone \<and> tracing w1 \<and> mt_start tr1 = Some b \<and> mt_prev tr1 = Some b
         \<and> mt_disabled tr1 = mt_disabled tr \<and> mt_top tr1 = mt_top tr \<and> \<not> tracing w
         \<and> nframe_ok F (mt_nframe tr)"
  using assms by (auto simp: start_def Let_def tracing_emit split: if_splits)

lemma last_take:
  "k < length ss \<Longrightarrow> last (b # take k ss) = (if k = 0 then b else ss ! (k - 1))"
  by (cases k) (simp_all add: last_conv_nth take_Suc_conv_app_nth)

lemma compare_in_update_calls:
  "CompareTo c old key \<in> set (update_calls F cur tr s0 p) \<longleftrightarrow>
     c = cur \<and> ((old = Some s0 \<and> key = Filename) \<or> (old = Some p \<and> key = Lineno))"
  by (auto simp: update_calls_def traceback_log_def)

lemma update_top: "mt_top (fst (snd (update F s tr w))) = mt_top tr"
  by (simp add: update_def Let_def split: option.splits)

lemma run_updates_top:
  "mt_top (fst (run F (map Update ss) (tr, w))) = mt_top tr"
proof (induction ss arbitrary: tr w)
  case Nil
  show ?case by simp
next
  case (Cons s ss)
  obtain r tr1 w1 where u: "update F s tr w = (r, tr1, w1)"
    by (cases "update F s tr w") auto
  have "mt_top tr1 = mt_top tr"
    using update_top [of F s tr w] u by simp
  with Cons.IH [of tr1 w1] u show ?case by simp
qed

lemma cumulative_in_update_calls:
  "Log (''Top cumulative stats since start:'' @ [newline] @ ''%s'')
     [PyStr (format_stats diff_str (slice_to (mt_top tr) (compare_to F cur s0 Filename)))]
     \<in> set (update_calls F cur tr s0 p)"
  unfolding update_calls_def by (intro UnI1 UnI2 insertI1 insertI2 | simp only: set_append list.set)+

lemma incremental_in_update_calls:
  "Log (''Top incremental stats since previous:'' @ [newline] @ ''%s'')
     [PyStr (format_stats diff_str (slice_to (mt_top tr) (compare_to F cur p Lineno)))]
     \<in> set (update_calls F cur tr s0 p)"
  unfolding update_calls_def by (intro UnI1 UnI2 insertI1 insertI2 | simp only: set_append list.set)+

lemma start_tracing:
  "\<not> mt_disabled tr \<Longrightarrow> tracing w \<Longrightarrow>
     start F s tr w = (Raised AlreadyTracingError, tr, emit IsTracing w)"
  by (simp add: start_def Let_def tracing_emit)

lemma stop_enabled:
  "\<not> mt_disabled tr \<Longrightarrow>
     stop tr w = (Returned PyNone, tr\<lparr>mt_start := None, mt_prev := None\<rparr>,
                  w\<lparr>tracing := False,
                    events := events w @ [TracemallocStop, Log ''Stopped memory tracer'' []]\<rparr>)"
  by (simp add: stop_def Let_def emit_def)

lemma run_of_disabled: "mt_disabled tr \<Longrightarrow> run F cs (tr, w) = (tr, w)"
proof (induction cs)
  case Nil
  show ?case by simp
next
  case (Cons c cs)
  then have "step F c (tr, w) = (tr, w)"
    by (cases c) (simp_all add: start_def update_def stop_def)
  with Cons show ?case by simp
qed

text \<open>The three ways an enabled \<open>update\<close> fails, and what it has called by then.\<close>

lemma update_not_tracing:
  "\<not> mt_disabled tr \<Longrightarrow> \<not> tracing w \<Longrightarrow>
     update F cur tr w = (Raised (FacilityError NotTracing), tr,
        emit TakeSnapshot (if mt_gccollect tr then emit GcCollect w else w))"
  by (simp add: update_def Let_def tracing_emit)

lemma update_no_start:
  "\<not> mt_disabled tr \<Longrightarrow> tracing w \<Longrightarrow> mt_start tr = None \<Longrightarrow>
     update F cur tr w = (Raised (FacilityError NoOldSnapshot), tr,
        emit (CompareTo cur None Filename)
          (emit TakeSnapshot (if mt_gccollect tr then emit GcCollect w else w)))"
  by (simp add: update_def Let_def tracing_emit)

lemma update_no_prev:
  "\<not> mt_disabled tr \<Longrightarrow> tracing w \<Longrightarrow> mt_start tr = Some s0 \<Longrightarrow> mt_prev tr = None \<Longrightarrow>
     update F cur tr w = (Raised (FacilityError NoOldSnapshot), tr,
        emit (CompareTo cur None Lineno)
          (emit (CompareTo cur (Some s0) Filename)
            (emit TakeSnapshot (if mt_gccollect tr then emit GcCollect w else w))))"
  by (simp add: update_def Let_def tracing_emit)

lemma update_returned:
  assumes "\<not> mt_disabled tr" "update F cur tr w = (Returned v, tr', w')"
  shows "tracing w \<and> (\<exists>s0 p. mt_start tr = Some s0 \<and> mt_prev tr = Some p)"
proof -
  have t: "tracing w"
  proof (rule ccontr)
    assume "\<not> tracing w"
    from update_not_tracing [OF assms(1) this, of F cur] assms(2) show False by simp
  qed
  have s: "mt_start tr \<noteq> None"
  proof
    assume "mt_start tr = None"
    from update_no_start [OF assms(1) t this, of F cur] assms(2) show False by simp
  qed
  then obtain s0 where s0: "mt_start tr = Some s0" by blast
  have "mt_prev tr \<noteq> None"
  proof
    assume "mt_prev tr = None"
    from update_no_prev [OF assms(1) t s0 this, of F cur] assms(2) show False by simp
  qed
  with t s0 show ?thesis by blast
qed

text \<open>A negative bound does not cut a list down to nothing: it drops from the end.\<close>

lemma slice_to_negative: "slice_to (- 1) [a, b, c] = [a, b]"
  by (simp add: slice_to_def)

text \<open>The demo states, evaluated.\<close>

lemma demo_started_eval:
  "fst demo_started = demo_tracer\<lparr>mt_start := Some 0, mt_prev := Some 0\<rparr>"
  "tracing (snd demo_started)"
  by (simp_all add: demo_started_def start_def demo_tracer_def init_def demo_world_def
        demo_facility_def Let_def emit_def)

lemma demo_checked_eval:
  "fst demo_checked = demo_tracer\<lparr>mt_start := Some 0, mt_prev := Some 5\<rparr>"
  "tracing (snd demo_checked)"
proof -
  have e: "\<not> mt_disabled (fst demo_started)" "mt_start (fst demo_started) = Some 0"
    "mt_prev (fst demo_started) = Some 0"
    by (simp_all add: demo_started_eval demo_tracer_def init_def)
  from update_enabled [OF e(1) demo_started_eval(2) e(2,3), of demo_facility 5]
  obtain w' where u: "update demo_facility 5 (fst demo_started) (snd demo_started)
       = (Returned PyNone, fst demo_started\<lparr>mt_prev := Some 5\<rparr>, w')" and t: "tracing w'"
    by blast
  have "run demo_facility [Update 5] (fst demo_started, snd demo_started)
          = snd (update demo_facility 5 (fst demo_started) (snd demo_started))"
    by (simp only: run.simps step.simps)
  then have d: "demo_checked = snd (update demo_facility 5 (fst demo_started) (snd demo_started))"
    by (simp only: prod.collapse demo_checked_def)
  have dc: "demo_checked = (fst demo_started\<lparr>mt_prev := Some 5\<rparr>, w')"
    unfolding d u by (simp only: snd_conv)
  show "fst demo_checked = demo_tracer\<lparr>mt_start := Some 0, mt_prev := Some 5\<rparr>"
    unfolding dc by (simp add: demo_started_eval)
  show "tracing (snd demo_checked)"
    unfolding dc using t by simp
qed

lemma demo_update_eval: "fst demo_update = Returned PyNone"
proof -
  have e: "\<not> mt_disabled (fst demo_checked)" "mt_start (fst demo_checked) = Some 0"
    "mt_prev (fst demo_checked) = Some 5"
    by (simp_all add: demo_checked_eval demo_tracer_def init_def)
  from update_enabled [OF e(1) demo_checked_eval(2) e(2,3), of demo_facility 7]
  show ?thesis unfolding demo_update_def by auto
qed

text \<open>Every enabled \<open>update\<close>, failing or not, begins with the optional collection
  and the snapshot, and repeats neither.\<close>

lemma gc_not_in_update_tail:
  "GcCollect \<notin> set (tl (update_calls F cur (tr\<lparr>mt_gccollect := False\<rparr>) s0 p))
   \<and> TakeSnapshot \<notin> set (tl (update_calls F cur (tr\<lparr>mt_gccollect := False\<rparr>) s0 p))"
  by (auto simp: update_calls_def traceback_log_def)

lemma update_calls_gc:
  "update_calls F cur tr s0 p =
     (if mt_gccollect tr then [GcCollect] else []) @ TakeSnapshot #
       tl (update_calls F cur (tr\<lparr>mt_gccollect := False\<rparr>) s0 p)"
  by (simp add: update_calls_def)

lemma update_events_shape:
  assumes "\<not> mt_disabled tr"
  shows "\<exists>rest. events (snd (snd (update F cur tr w)))
           = events w @ (if mt_gccollect tr then [GcCollect] else []) @ TakeSnapshot # rest
         \<and> GcCollect \<notin> set rest \<and> TakeSnapshot \<notin> set rest"
proof (cases "tracing w")
  case False
  from update_not_tracing [OF assms False, of F cur] show ?thesis
    by (simp add: events_emit)
next
  case t: True
  show ?thesis
  proof (cases "mt_start tr")
    case None
    from update_no_start [OF assms t None, of F cur] show ?thesis
      by (simp add: events_emit)
  next
    case s0: (Some s0)
    show ?thesis
    proof (cases "mt_prev tr")
      case None
      from update_no_prev [OF assms t s0 None, of F cur] show ?thesis
        by (simp add: events_emit)
    next
      case (Some p)
      from update_enabled [OF assms t s0 Some, of F cur] obtain w' where
        "update F cur tr w = (Returned PyNone, tr\<lparr>mt_prev := Some cur\<rparr>, w')"
        "events w' = events w @ update_calls F cur tr s0 p"
        by blast
      then have "events (snd (snd (update F cur tr w)))
          = events w @ (if mt_gccollect tr then [GcCollect] else []) @ TakeSnapshot #
              tl (update_calls F cur (tr\<lparr>mt_gccollect := False\<rparr>) s0 p)"
        using update_calls_gc [of F cur tr s0 p] by simp
      with gc_not_in_update_tail [of F cur tr s0 p] show ?thesis
        by blast
    qed
  qed
qed

text \<open>In a list sorted by a relation, every element of a prefix is related to every
  element of the rest.\<close>

lemma sorted_wrt_take_drop:
  assumes "sorted_wrt R xs" "a \<in> set (take n xs)" "b \<in> set (drop n xs)"
  shows "R a b"
proof -
  from assms(1) have "sorted_wrt R (take n xs @ drop n xs)" by simp
  with assms(2,3) show ?thesis
    unfolding sorted_wrt_append by blast
qed

text \<open>An enabled \<open>start\<close> with tracing off and an accepted frame count returns.\<close>

lemma start_enabled_ok:
  "\<not> mt_disabled tr \<Longrightarrow> \<not> tracing w \<Longrightarrow> nframe_ok F (mt_nframe tr) \<Longrightarrow>
     start F s tr w =
       (Returned PyNone, tr\<lparr>mt_start := Some s, mt_prev := Some s\<rparr>,
        w\<lparr>tracing := True,
          events := events w @ [IsTracing, Log ''Starting memory tracer'' [],
                                TracemallocStart (mt_nframe tr), TakeSnapshot]\<rparr>)"
  by (simp add: start_def Let_def emit_def)

text \<open>The \<open>with\<close> statement: \<open>__exit__\<close> is \<open>stop\<close>, which returns; a scope that was
  entered ends with \<open>stop\<close> and the outcome of its body; a scope whose entry is
  refused ends there.\<close>

lemma exit_stop: "exit tr w = stop tr w"
  by (simp add: exit_def stop_def Let_def)

lemma stop_returns: "fst (stop tr w) = Returned PyNone"
  by (simp add: stop_def Let_def)

lemma with_tracer_entered:
  assumes "start F snap tr w = (Returned v, tr1, w1)" and "body PySelf tr1 w1 = (r, tr2, w2)"
  shows "with_tracer F snap body tr w = (r, snd (stop tr2 w2))"
proof -
  obtain tr3 w3 where s: "stop tr2 w2 = (Returned PyNone, tr3, w3)"
    using stop_returns [of tr2 w2] by (cases "stop tr2 w2") auto
  show ?thesis
    by (simp add: with_tracer_def enter_def assms exit_stop s)
qed

lemma with_tracer_refused:
  assumes "start F snap tr w = (Raised e, tr1, w1)"
  shows "with_tracer F snap body tr w = (Raised e, tr1, w1)"
  by (simp add: with_tracer_def enter_def assms)

section \<open>Properties of the specification\<close>

subsection \<open>Snapshots compared by a checkpoint\<close>

text \<open>
  Claim C1 (baseline stability). Let an enabled tracer be started, the facility
  delivering the snapshot \<open>b\<close>, and let it take the checkpoints \<open>ss\<close> one after
  the other. Then the checkpoint number \<open>k\<close> returns, it asks the facility for
  one comparison at file granularity, namely of its own snapshot with \<open>b\<close>, the
  cumulative report it logs is made of the first rows of that comparison, and
  \<open>self._start\<close> holds \<open>b\<close> before and after it. In any state at all, \<open>update\<close>
  leaves \<open>self._start\<close> as it finds it.
\<close>

theorem baseline_stability:
  assumes "\<not> mt_disabled tr"
    and "start F b tr w = (Returned r, tr1, w1)"
    and "k < length ss"
    and "run F (map Update (take k ss)) (tr1, w1) = (trk, wk)"
    and "update F (ss ! k) trk wk = (res, tr', w')"
  shows "res = Returned PyNone
       \<and> mt_start tr1 = Some b \<and> mt_start trk = Some b \<and> mt_start tr' = Some b
       \<and> CompareTo (ss ! k) (Some b) Filename \<in> set (new_events wk w')
       \<and> (\<forall>c old. CompareTo c old Filename \<in> set (new_events wk w') \<longrightarrow> c = ss ! k \<and> old = Some b)
       \<and> Log (''Top cumulative stats since start:'' @ [newline] @ ''%s'')
           [PyStr (format_stats diff_str
              (slice_to (mt_top tr) (compare_to F (ss ! k) b Filename)))] \<in> set (new_events wk w')
       \<and> (\<forall>cur t0 v0. mt_start (fst (snd (update F cur t0 (v0 :: 'a world)))) = mt_start t0)"
proof -
  have c4: "\<forall>cur t0 v0. mt_start (fst (snd (update F cur t0 (v0 :: 'a world)))) = mt_start t0"
    using update_keeps [of F] by blast
  from start_returned [OF assms(1,2)] assms(1) have
    s1: "tracing w1" "mt_start tr1 = Some b" "mt_prev tr1 = Some b" "\<not> mt_disabled tr1"
      "mt_top tr1 = mt_top tr"
    by simp_all
  from run_updates_keeps [of F "take k ss" tr1 w1] have
    "mt_start trk = mt_start tr1" "tracing wk = tracing w1" "mt_disabled trk = mt_disabled tr1"
    by (simp_all add: assms(4))
  with s1 have sk: "mt_start trk = Some b" "tracing wk" "\<not> mt_disabled trk"
    by simp_all
  from run_updates_prev [OF s1(4,1,2,3), of F "take k ss"] have
    pk: "mt_prev trk = Some (last (b # take k ss))"
    by (simp add: assms(4))
  from run_updates_top [of F "take k ss" tr1 w1] s1(5) have
    tk: "mt_top trk = mt_top tr"
    by (simp add: assms(4))
  from update_enabled [OF sk(3,2,1) pk, of F "ss ! k"] obtain w2 where
    u2: "update F (ss ! k) trk wk = (Returned PyNone, trk\<lparr>mt_prev := Some (ss ! k)\<rparr>, w2)"
    and e2: "events w2 = events wk @ update_calls F (ss ! k) trk b (last (b # take k ss))"
    by blast
  from u2 assms(5) have r: "res = Returned PyNone"
    and t: "tr' = trk\<lparr>mt_prev := Some (ss ! k)\<rparr>" and ww: "w' = w2"
    by simp_all
  have n: "new_events wk w' = update_calls F (ss ! k) trk b (last (b # take k ss))"
    unfolding ww by (rule new_events_append) (rule e2)
  have c0: "mt_start tr' = Some b"
    unfolding t using sk(1) by simp
  have c1: "CompareTo (ss ! k) (Some b) Filename \<in> set (new_events wk w')"
    unfolding n compare_in_update_calls by simp
  have c2: "\<forall>c old. CompareTo c old Filename \<in> set (new_events wk w') \<longrightarrow> c = ss ! k \<and> old = Some b"
    unfolding n compare_in_update_calls by simp
  have c3: "Log (''Top cumulative stats since start:'' @ [newline] @ ''%s'')
           [PyStr (format_stats diff_str
              (slice_to (mt_top tr) (compare_to F (ss ! k) b Filename)))] \<in> set (new_events wk w')"
    unfolding n using cumulative_in_update_calls [of trk F "ss ! k" b] unfolding tk by blast
  from r s1(2) sk(1) c0 c1 c2 c3 c4 show ?thesis by blast
qed

theorem baseline_stability_witness:
  "start demo_facility 0 demo_tracer demo_world = (Returned PyNone, demo_started)
   \<and> mt_start (fst demo_checked) = Some 0
   \<and> mt_start (fst (snd demo_update)) = Some 0
   \<and> CompareTo 7 (Some 0) Filename \<in> set (new_events (snd demo_checked) (snd (snd demo_update)))"
proof -
  have h1: "\<not> mt_disabled demo_tracer"
    by (simp add: demo_tracer_def init_def)
  have h2: "start demo_facility 0 demo_tracer demo_world
              = (Returned PyNone, fst demo_started, snd demo_started)"
    by (simp add: demo_started_def start_def demo_tracer_def init_def demo_world_def
          demo_facility_def Let_def emit_def)
  have h3: "(1::nat) < length [5, 7::nat]"
    by simp
  have h4: "run demo_facility (map Update (take 1 [5, 7])) (fst demo_started, snd demo_started)
              = (fst demo_checked, snd demo_checked)"
    by (simp add: demo_checked_def)
  have h5: "update demo_facility ([5, 7] ! 1) (fst demo_checked) (snd demo_checked)
              = (fst demo_update, fst (snd demo_update), snd (snd demo_update))"
    by (simp add: demo_update_def)
  from baseline_stability [OF h1 h2 h3 h4 h5] h2 show ?thesis
    by simp
qed

text \<open>
  Claim C2 (incremental chaining). In the same run, the checkpoint number \<open>k\<close>
  asks the facility for one comparison at line granularity, namely of its own
  snapshot with the snapshot of the checkpoint before it, or with the baseline
  \<open>b\<close> when it is the first; the incremental report it logs is made of the first
  rows of that comparison; and when it returns \<open>self._prev\<close> holds its own snapshot.
\<close>

theorem incremental_chaining:
  assumes "\<not> mt_disabled tr"
    and "start F b tr w = (Returned r, tr1, w1)"
    and "k < length ss"
    and "run F (map Update (take k ss)) (tr1, w1) = (trk, wk)"
    and "update F (ss ! k) trk wk = (res, tr', w')"
  shows "res = Returned PyNone
       \<and> mt_prev trk = Some (if k = 0 then b else ss ! (k - 1))
       \<and> CompareTo (ss ! k) (Some (if k = 0 then b else ss ! (k - 1))) Lineno
            \<in> set (new_events wk w')
       \<and> (\<forall>c old. CompareTo c old Lineno \<in> set (new_events wk w') \<longrightarrow>
            c = ss ! k \<and> old = Some (if k = 0 then b else ss ! (k - 1)))
       \<and> Log (''Top incremental stats since previous:'' @ [newline] @ ''%s'')
           [PyStr (format_stats diff_str
              (slice_to (mt_top tr)
                 (compare_to F (ss ! k) (if k = 0 then b else ss ! (k - 1)) Lineno)))]
            \<in> set (new_events wk w')
       \<and> mt_prev tr' = Some (ss ! k)"
proof -
  define p where "p = (if k = 0 then b else ss ! (k - 1))"
  from start_returned [OF assms(1,2)] assms(1) have
    s1: "tracing w1" "mt_start tr1 = Some b" "mt_prev tr1 = Some b" "\<not> mt_disabled tr1"
      "mt_top tr1 = mt_top tr"
    by simp_all
  from run_updates_keeps [of F "take k ss" tr1 w1] have
    "mt_start trk = mt_start tr1" "tracing wk = tracing w1" "mt_disabled trk = mt_disabled tr1"
    by (simp_all add: assms(4))
  with s1 have sk: "mt_start trk = Some b" "tracing wk" "\<not> mt_disabled trk"
    by simp_all
  from run_updates_prev [OF s1(4,1,2,3), of F "take k ss"] have
    "mt_prev trk = Some (last (b # take k ss))"
    by (simp add: assms(4))
  then have pk: "mt_prev trk = Some p"
    unfolding p_def using last_take [OF assms(3), of b] by simp
  from run_updates_top [of F "take k ss" tr1 w1] s1(5) have
    tk: "mt_top trk = mt_top tr"
    by (simp add: assms(4))
  from update_enabled [OF sk(3,2,1) pk, of F "ss ! k"] obtain w2 where
    u2: "update F (ss ! k) trk wk = (Returned PyNone, trk\<lparr>mt_prev := Some (ss ! k)\<rparr>, w2)"
    and e2: "events w2 = events wk @ update_calls F (ss ! k) trk b p"
    by blast
  from u2 assms(5) have r: "res = Returned PyNone"
    and t: "tr' = trk\<lparr>mt_prev := Some (ss ! k)\<rparr>" and ww: "w' = w2"
    by simp_all
  have n: "new_events wk w' = update_calls F (ss ! k) trk b p"
    unfolding ww by (rule new_events_append) (rule e2)
  have c0: "mt_prev tr' = Some (ss ! k)"
    unfolding t by simp
  have c1: "CompareTo (ss ! k) (Some p) Lineno \<in> set (new_events wk w')"
    unfolding n compare_in_update_calls by simp
  have c2: "\<forall>c old. CompareTo c old Lineno \<in> set (new_events wk w') \<longrightarrow> c = ss ! k \<and> old = Some p"
    unfolding n compare_in_update_calls by simp
  have c3: "Log (''Top incremental stats since previous:'' @ [newline] @ ''%s'')
           [PyStr (format_stats diff_str
              (slice_to (mt_top tr) (compare_to F (ss ! k) p Lineno)))] \<in> set (new_events wk w')"
    unfolding n using incremental_in_update_calls [of trk F "ss ! k" p b] unfolding tk by blast
  from r pk c1 c2 c3 c0 show ?thesis unfolding p_def by blast
qed

theorem incremental_chaining_witness:
  "mt_prev (fst demo_checked) = Some 5
   \<and> CompareTo 7 (Some 5) Lineno \<in> set (new_events (snd demo_checked) (snd (snd demo_update)))
   \<and> mt_prev (fst (snd demo_update)) = Some 7"
proof -
  have h1: "\<not> mt_disabled demo_tracer"
    by (simp add: demo_tracer_def init_def)
  have h2: "start demo_facility 0 demo_tracer demo_world
              = (Returned PyNone, fst demo_started, snd demo_started)"
    by (simp add: demo_started_def start_def demo_tracer_def init_def demo_world_def
          demo_facility_def Let_def emit_def)
  have h3: "(1::nat) < length [5, 7::nat]"
    by simp
  have h4: "run demo_facility (map Update (take 1 [5, 7])) (fst demo_started, snd demo_started)
              = (fst demo_checked, snd demo_checked)"
    by (simp add: demo_checked_def)
  have h5: "update demo_facility ([5, 7] ! 1) (fst demo_checked) (snd demo_checked)
              = (fst demo_update, fst (snd demo_update), snd (snd demo_update))"
    by (simp add: demo_update_def)
  from incremental_chaining [OF h1 h2 h3 h4 h5] show ?thesis
    by simp
qed

subsection \<open>Starting and stopping\<close>

text \<open>
  Claim C3 (exclusive session). When the facility reports that it is tracing,
  \<open>start\<close> on an enabled tracer raises the error of a session already running;
  the tracer is as it was, the tracing flag is as it was, and the only call made
  to a collaborator is the query \<open>is_tracing()\<close>. In particular, after a \<open>start\<close>
  that returned, a second \<open>start\<close> raises that error, also when checkpoints were
  taken in between.
\<close>

theorem exclusive_session:
  assumes "\<not> mt_disabled tr"
  shows "(tracing w \<longrightarrow>
            start F s tr w = (Raised AlreadyTracingError, tr, emit IsTracing w)
            \<and> tracing (emit IsTracing w) = tracing w
            \<and> new_events w (emit IsTracing w) = [IsTracing])
       \<and> (\<forall>r tr1 w1 ss s' tr2 w2.
            start F s tr w = (Returned r, tr1, w1) \<and> run F (map Update ss) (tr1, w1) = (tr2, w2)
            \<longrightarrow> start F s' tr2 w2 = (Raised AlreadyTracingError, tr2, emit IsTracing w2))"
proof (intro conjI impI allI)
  assume "tracing w"
  with assms show "start F s tr w = (Raised AlreadyTracingError, tr, emit IsTracing w)"
    by (rule start_tracing)
next
  show "tracing (emit IsTracing w) = tracing w"
    by (rule tracing_emit)
next
  show "new_events w (emit IsTracing w) = [IsTracing]"
    by (rule new_events_append) (rule events_emit)
next
  fix r tr1 w1 ss s' tr2 w2
  assume a: "start F s tr w = (Returned r, tr1, w1) \<and> run F (map Update ss) (tr1, w1) = (tr2, w2)"
  from start_returned [OF assms, of F s w r tr1 w1] a assms
  have s1: "tracing w1" "\<not> mt_disabled tr1"
    by simp_all
  from run_updates_keeps [of F ss tr1 w1] a s1 have "tracing w2" "\<not> mt_disabled tr2"
    by simp_all
  then show "start F s' tr2 w2 = (Raised AlreadyTracingError, tr2, emit IsTracing w2)"
    by (simp add: start_tracing)
qed

theorem exclusive_session_witness:
  "start demo_facility 9 (fst demo_started) (snd demo_started)
     = (Raised AlreadyTracingError, fst demo_started, emit IsTracing (snd demo_started))
   \<and> start demo_facility 9 (fst demo_checked) (snd demo_checked)
     = (Raised AlreadyTracingError, fst demo_checked, emit IsTracing (snd demo_checked))"
proof -
  have h1: "\<not> mt_disabled demo_tracer"
    by (simp add: demo_tracer_def init_def)
  have h2: "start demo_facility 0 demo_tracer demo_world
              = (Returned PyNone, fst demo_started, snd demo_started)"
    by (simp add: demo_started_def start_def demo_tracer_def init_def demo_world_def
          demo_facility_def Let_def emit_def)
  have h3: "run demo_facility (map Update []) (fst demo_started, snd demo_started)
              = (fst demo_started, snd demo_started)"
    by simp
  have h4: "run demo_facility (map Update [5]) (fst demo_started, snd demo_started)
              = (fst demo_checked, snd demo_checked)"
    by (simp add: demo_checked_def)
  from exclusive_session [OF h1, of demo_world demo_facility 0] h2 h3 h4 show ?thesis
    by blast
qed

text \<open>
  Claim C4 (lenient stop). After any sequence of calls on an enabled tracer,
  failed ones included, \<open>stop\<close> returns; afterwards \<open>self._start\<close> and \<open>self._prev\<close>
  are \<open>None\<close>, the facility is not tracing, and the calls made are
  \<open>tracemalloc.stop()\<close> followed by the log line of the stop.
\<close>

theorem lenient_stop:
  assumes "\<not> mt_disabled tr" and "run F cs (tr, w) = (tr', w')"
  shows "\<exists>tr'' w''. stop tr' w' = (Returned PyNone, tr'', w'')
           \<and> mt_start tr'' = None \<and> mt_prev tr'' = None \<and> \<not> tracing w''
           \<and> new_events w' w'' = [TracemallocStop, Log ''Stopped memory tracer'' []]"
proof -
  from run_disabled [of F cs "(tr, w)"] assms have e: "\<not> mt_disabled tr'"
    by simp
  show ?thesis
    unfolding stop_enabled [OF e] by (simp add: new_events_def)
qed

theorem lenient_stop_witness:
  "fst (stop (fst (run demo_facility demo_calls (demo_tracer, demo_world)))
             (snd (run demo_facility demo_calls (demo_tracer, demo_world)))) = Returned PyNone
   \<and> \<not> tracing (snd (snd (stop (fst (run demo_facility demo_calls (demo_tracer, demo_world)))
             (snd (run demo_facility demo_calls (demo_tracer, demo_world))))))"
proof -
  have h1: "\<not> mt_disabled demo_tracer"
    by (simp add: demo_tracer_def init_def)
  have h2: "run demo_facility demo_calls (demo_tracer, demo_world)
              = (fst (run demo_facility demo_calls (demo_tracer, demo_world)),
                 snd (run demo_facility demo_calls (demo_tracer, demo_world)))"
    by simp
  from lenient_stop [OF h1 h2] show ?thesis
    by auto
qed

text \<open>
  Claim C6 (disabled short-circuit). On a disabled tracer \<open>start\<close>, \<open>update\<close> and
  \<open>stop\<close> return with the tracer and the world as they were, so without any call
  to a collaborator and without a log line; the same holds of any sequence of
  such calls.
\<close>

theorem disabled_short_circuit:
  assumes "mt_disabled tr"
  shows "start F s tr w = (Returned PySelf, tr, w)
       \<and> update F s tr w = (Returned PyNone, tr, w)
       \<and> stop tr w = (Returned PyNone, tr, w)
       \<and> run F cs (tr, w) = (tr, w)"
  using assms by (simp add: start_def update_def stop_def run_of_disabled)

theorem disabled_short_circuit_witness:
  "start demo_facility 4 (init 20 1 25 True True) demo_world
     = (Returned PySelf, init 20 1 25 True True, demo_world)
   \<and> update demo_facility 4 (init 20 1 25 True True) demo_world
     = (Returned PyNone, init 20 1 25 True True, demo_world)
   \<and> stop (init 20 1 25 True True) demo_world
     = (Returned PyNone, init 20 1 25 True True, demo_world)
   \<and> events (snd (run demo_facility [Start 1, Update 2, Stop] (init 20 1 25 True True, demo_world))) = []"
proof -
  have h: "mt_disabled (init 20 1 25 True True :: nat tracer)"
    by (simp add: init_def)
  from disabled_short_circuit [OF h, of demo_facility 4 demo_world "[Start 1, Update 2, Stop]"]
  show ?thesis by (simp add: demo_world_def)
qed

subsection \<open>What a checkpoint reports\<close>

text \<open>
  Claim C7 (row truncation). For an enabled tracer whose \<open>top\<close> and \<open>trace\<close> are
  not negative, an \<open>update\<close> that returns has logged, in this order, the
  cumulative, the incremental and the current report, each made of at most
  \<open>top\<close> rows, namely the first rows the facility returned, and then at most
  \<open>trace\<close> traceback reports, one for each of the first sites the facility
  returned, whatever the number of rows and sites the facility returned.
\<close>

theorem row_truncation:
  assumes "\<not> mt_disabled tr" and "0 \<le> mt_top tr" and "0 \<le> mt_trace tr"
    and "update F cur tr w = (Returned v, tr', w')"
  shows "\<exists>s0 p cum inc now det.
           mt_start tr = Some s0 \<and> mt_prev tr = Some p
         \<and> cum = take (nat (mt_top tr)) (compare_to F cur s0 Filename)
         \<and> inc = take (nat (mt_top tr)) (compare_to F cur p Lineno)
         \<and> now = take (nat (mt_top tr)) (statistics F cur Filename)
         \<and> det = take (nat (mt_trace tr)) (statistics F cur Traceback)
         \<and> length cum \<le> nat (mt_top tr) \<and> length inc \<le> nat (mt_top tr)
         \<and> length now \<le> nat (mt_top tr) \<and> length det \<le> nat (mt_trace tr)
         \<and> new_events w w' =
              (if mt_gccollect tr then [GcCollect] else []) @
              [TakeSnapshot,
               CompareTo cur (Some s0) Filename,
               CompareTo cur (Some p) Lineno,
               Log (''Top cumulative stats since start:'' @ [newline] @ ''%s'')
                 [PyStr (format_stats diff_str cum)],
               Log (''Top incremental stats since previous:'' @ [newline] @ ''%s'')
                 [PyStr (format_stats diff_str inc)],
               Statistics cur Filename,
               Log (''Top current stats:'' @ [newline] @ ''%s'')
                 [PyStr (format_stats stat_str now)],
               Statistics cur Traceback] @
              map traceback_log det"
proof -
  from update_returned [OF assms(1,4)] obtain s0 p where
    t: "tracing w" and s0: "mt_start tr = Some s0" and p: "mt_prev tr = Some p"
    by blast
  from update_enabled [OF assms(1) t s0 p, of F cur] assms(4) have
    "events w' = events w @ update_calls F cur tr s0 p"
    by auto
  then have n: "new_events w w' = update_calls F cur tr s0 p"
    by (rule new_events_append)
  show ?thesis
    unfolding n update_calls_def slice_to_take [OF assms(2)] slice_to_take [OF assms(3)]
    using s0 p by simp
qed

theorem row_truncation_witness:
  "mt_top (fst demo_checked) = 2 \<and> mt_trace (fst demo_checked) = 1
   \<and> length (compare_to demo_facility 7 0 Filename) = 3
   \<and> length (statistics demo_facility 7 Traceback) = 3
   \<and> new_events (snd demo_checked) (snd (snd demo_update)) =
       [GcCollect, TakeSnapshot,
        CompareTo 7 (Some 0) Filename,
        CompareTo 7 (Some 5) Lineno,
        Log (''Top cumulative stats since start:'' @ [newline] @ ''%s'')
          [PyStr (format_stats diff_str (take 2 (demo_diffs 7 0 Filename)))],
        Log (''Top incremental stats since previous:'' @ [newline] @ ''%s'')
          [PyStr (format_stats diff_str (take 2 (demo_diffs 7 5 Lineno)))],
        Statistics 7 Filename,
        Log (''Top current stats:'' @ [newline] @ ''%s'')
          [PyStr (format_stats stat_str (take 2 (demo_stats 7 Filename)))],
        Statistics 7 Traceback,
        traceback_log (hd (demo_stats 7 Traceback))]"
proof -
  have e: "\<not> mt_disabled (fst demo_checked)" "0 \<le> mt_top (fst demo_checked)"
    "0 \<le> mt_trace (fst demo_checked)"
    by (simp_all add: demo_checked_eval demo_tracer_def init_def)
  have u: "update demo_facility 7 (fst demo_checked) (snd demo_checked)
             = (Returned PyNone, fst (snd demo_update), snd (snd demo_update))"
    using demo_update_eval by (simp add: demo_update_def prod_eq_iff)
  have f: "mt_start (fst demo_checked) = Some 0" "mt_prev (fst demo_checked) = Some 5"
    "mt_top (fst demo_checked) = 2" "mt_trace (fst demo_checked) = 1"
    "mt_gccollect (fst demo_checked)"
    by (simp_all add: demo_checked_eval demo_tracer_def init_def)
  have g: "compare_to demo_facility = demo_diffs" "statistics demo_facility = demo_stats"
    by (simp_all add: demo_facility_def)
  have t: "take (Suc 0) (demo_stats 7 Traceback) = [hd (demo_stats 7 Traceback)]"
    by (simp add: demo_stats_def)
  from row_truncation [OF e u] f g t show ?thesis
    by (simp add: numeral_2_eq_2 demo_diffs_def demo_stats_def)
qed

text \<open>
  Claim C8 (collection before the snapshot). For every \<open>update\<close> on an enabled
  tracer, whether it returns or raises: when \<open>gccollect\<close> is set, the first call
  is \<open>gc.collect()\<close>, the second is \<open>take_snapshot()\<close>, and neither is called
  again; when \<open>gccollect\<close> is not set, the first call is \<open>take_snapshot()\<close> and
  \<open>gc.collect()\<close> is not called at all.
\<close>

theorem gc_before_snapshot:
  assumes "\<not> mt_disabled tr" and "update F cur tr w = (r, tr', w')"
  shows "(mt_gccollect tr \<longrightarrow>
            (\<exists>rest. new_events w w' = GcCollect # TakeSnapshot # rest
                \<and> GcCollect \<notin> set rest \<and> TakeSnapshot \<notin> set rest))
       \<and> (\<not> mt_gccollect tr \<longrightarrow>
            (\<exists>rest. new_events w w' = TakeSnapshot # rest \<and> TakeSnapshot \<notin> set rest)
            \<and> GcCollect \<notin> set (new_events w w'))"
proof -
  from update_events_shape [OF assms(1), of F cur w] assms(2) obtain rest where
    e: "events w' = events w @ (if mt_gccollect tr then [GcCollect] else []) @ TakeSnapshot # rest"
    and n: "GcCollect \<notin> set rest" "TakeSnapshot \<notin> set rest"
    by auto
  from e have "new_events w w' = (if mt_gccollect tr then [GcCollect] else []) @ TakeSnapshot # rest"
    by (rule new_events_append)
  with n show ?thesis by auto
qed

theorem gc_before_snapshot_witness:
  "take 2 (new_events (snd demo_checked) (snd (snd demo_update))) = [GcCollect, TakeSnapshot]
   \<and> GcCollect \<notin> set (new_events demo_world
         (snd (snd (update demo_facility 3 (init 2 1 25 False False) demo_world))))"
proof -
  have e: "\<not> mt_disabled (fst demo_checked)" "mt_gccollect (fst demo_checked)"
    by (simp_all add: demo_checked_eval demo_tracer_def init_def)
  have u: "update demo_facility 7 (fst demo_checked) (snd demo_checked)
             = (fst demo_update, fst (snd demo_update), snd (snd demo_update))"
    by (simp add: demo_update_def)
  have e2: "\<not> mt_disabled (init 2 1 25 False False :: nat tracer)"
    "\<not> mt_gccollect (init 2 1 25 False False :: nat tracer)"
    by (simp_all add: init_def)
  have u2: "update demo_facility 3 (init 2 1 25 False False) demo_world
    = (fst (update demo_facility 3 (init 2 1 25 False False) demo_world),
       fst (snd (update demo_facility 3 (init 2 1 25 False False) demo_world)),
       snd (snd (update demo_facility 3 (init 2 1 25 False False) demo_world)))"
    by simp
  from gc_before_snapshot [OF e(1) u] gc_before_snapshot [OF e2(1) u2] e(2) e2(2)
  show ?thesis by auto
qed

text \<open>
  Claim C9 (detailed traceback reports). For an enabled tracer whose \<open>trace\<close> is
  not negative, an \<open>update\<close> that returns ends with the statistics of the current
  snapshot grouped by traceback and then one log call for each of the first
  \<open>trace\<close> sites of these statistics, and no such log call before. Each call
  hands the logger the format \<open>memory_blocks=%s size_KiB=%.1f\<close>, a line break and
  \<open>%s\<close>, with the count of the site, the float of its size divided by 1024 and
  the lines of its call stack joined by line breaks. That float is the size
  divided by 1024 itself for every size below \<open>2 ^ 53\<close> bytes, and for every size
  it is no further from it than that quotient times \<open>2 ^ - 53\<close>. When the facility
  returns the sites biggest first, as \<open>tracemalloc\<close> does, no site left out is
  bigger than a reported one.
\<close>

theorem detailed_traceback_reports:
  assumes "\<not> mt_disabled tr" and "0 \<le> mt_trace tr"
    and "update F cur tr w = (Returned v, tr', w')"
  shows "(\<exists>before. new_events w w' =
            before @ [Statistics cur Traceback] @
              map (\<lambda>stat. Log (''memory_blocks=%s size_KiB=%.1f'' @ [newline] @ ''%s'')
                             [PyInt (stat_count stat),
                              PyFloat (truediv_1024 (unat (stat_size stat))),
                              PyStr (join [newline] (stat_traceback stat))])
                (take (nat (mt_trace tr)) (statistics F cur Traceback))
            \<and> (\<forall>args. Log (''memory_blocks=%s size_KiB=%.1f'' @ [newline] @ ''%s'') args
                  \<notin> set before))
       \<and> (\<forall>size :: 64 word. unat size < 2 ^ 53 \<longrightarrow>
            truediv_1024 (unat size) = rat_of_nat (unat size) / 1024)
       \<and> (\<forall>size :: 64 word.
            \<bar>truediv_1024 (unat size) - rat_of_nat (unat size) / 1024\<bar> * 2 ^ 53
              \<le> rat_of_nat (unat size) / 1024)
       \<and> (sorted_wrt (\<lambda>a b. stat_size b \<le> stat_size a) (statistics F cur Traceback) \<longrightarrow>
            (\<forall>a \<in> set (take (nat (mt_trace tr)) (statistics F cur Traceback)).
             \<forall>b \<in> set (drop (nat (mt_trace tr)) (statistics F cur Traceback)).
               stat_size b \<le> stat_size a))"
proof (intro conjI allI impI ballI)
  from update_returned [OF assms(1,3)] obtain s0 p where
    t: "tracing w" and s0: "mt_start tr = Some s0" and p: "mt_prev tr = Some p"
    by blast
  from update_enabled [OF assms(1) t s0 p, of F cur] assms(3) have
    "events w' = events w @ update_calls F cur tr s0 p"
    by auto
  then have n: "new_events w w' = update_calls F cur tr s0 p"
    by (rule new_events_append)
  define before where "before =
     (if mt_gccollect tr then [GcCollect] else []) @
     [TakeSnapshot,
      CompareTo cur (Some s0) Filename,
      CompareTo cur (Some p) Lineno,
      Log (''Top cumulative stats since start:'' @ [newline] @ ''%s'')
        [PyStr (format_stats diff_str (slice_to (mt_top tr) (compare_to F cur s0 Filename)))],
      Log (''Top incremental stats since previous:'' @ [newline] @ ''%s'')
        [PyStr (format_stats diff_str (slice_to (mt_top tr) (compare_to F cur p Lineno)))],
      Statistics cur Filename,
      Log (''Top current stats:'' @ [newline] @ ''%s'')
        [PyStr (format_stats stat_str (slice_to (mt_top tr) (statistics F cur Filename)))]]"
  have m: "(traceback_log :: statistic \<Rightarrow> 'a event) =
      (\<lambda>stat. Log (''memory_blocks=%s size_KiB=%.1f'' @ [newline] @ ''%s'')
                             [PyInt (stat_count stat),
                              PyFloat (truediv_1024 (unat (stat_size stat))),
                              PyStr (join [newline] (stat_traceback stat))])"
    by (rule ext) (simp add: traceback_log_def)
  have b: "update_calls F cur tr s0 p = before @ [Statistics cur Traceback] @
              map traceback_log (take (nat (mt_trace tr)) (statistics F cur Traceback))"
    unfolding before_def update_calls_def slice_to_take [OF assms(2)] by simp
  have c: "\<forall>args. Log (''memory_blocks=%s size_KiB=%.1f'' @ [newline] @ ''%s'') args
                  \<notin> set before"
    unfolding before_def by simp
  from b c show "\<exists>before. new_events w w' =
            before @ [Statistics cur Traceback] @
              map (\<lambda>stat. Log (''memory_blocks=%s size_KiB=%.1f'' @ [newline] @ ''%s'')
                             [PyInt (stat_count stat),
                              PyFloat (truediv_1024 (unat (stat_size stat))),
                              PyStr (join [newline] (stat_traceback stat))])
                (take (nat (mt_trace tr)) (statistics F cur Traceback))
            \<and> (\<forall>args. Log (''memory_blocks=%s size_KiB=%.1f'' @ [newline] @ ''%s'') args
                  \<notin> set before)"
    unfolding n m by blast
next
  fix size :: "64 word"
  assume "unat size < 2 ^ 53"
  then show "truediv_1024 (unat size) = rat_of_nat (unat size) / 1024"
    by (rule truediv_1024_exact)
next
  fix size :: "64 word"
  show "\<bar>truediv_1024 (unat size) - rat_of_nat (unat size) / 1024\<bar> * 2 ^ 53
          \<le> rat_of_nat (unat size) / 1024"
    by (rule truediv_1024_nearest)
next
  fix a b
  assume "sorted_wrt (\<lambda>a b. stat_size b \<le> stat_size a) (statistics F cur Traceback)"
    and "a \<in> set (take (nat (mt_trace tr)) (statistics F cur Traceback))"
    and "b \<in> set (drop (nat (mt_trace tr)) (statistics F cur Traceback))"
  then show "stat_size b \<le> stat_size a"
    by (rule sorted_wrt_take_drop)
qed

theorem detailed_traceback_reports_witness:
  "mt_trace (fst demo_checked) = 1
   \<and> map stat_size (statistics demo_facility 7 Traceback) = [3072, 2048, 512]
   \<and> last (new_events (snd demo_checked) (snd (snd demo_update))) =
       Log (''memory_blocks=%s size_KiB=%.1f'' @ [newline] @ ''%s'')
         [PyInt 3, PyFloat 3, PyStr (''a.py:1'' @ [newline] @ ''a.py:9'')]"
proof -
  have e: "\<not> mt_disabled (fst demo_checked)" "0 \<le> mt_trace (fst demo_checked)"
    by (simp_all add: demo_checked_eval demo_tracer_def init_def)
  have u: "update demo_facility 7 (fst demo_checked) (snd demo_checked)
             = (Returned PyNone, fst (snd demo_update), snd (snd demo_update))"
    using demo_update_eval by (simp add: demo_update_def prod_eq_iff)
  have f: "mt_trace (fst demo_checked) = 1"
    by (simp add: demo_checked_eval demo_tracer_def init_def)
  have g: "statistics demo_facility = demo_stats"
    by (simp add: demo_facility_def)
  note t = detailed_traceback_reports [OF e u]
  from t obtain before where
    n: "new_events (snd demo_checked) (snd (snd demo_update)) =
       before @ [Statistics 7 Traceback] @
         map (\<lambda>stat. Log (''memory_blocks=%s size_KiB=%.1f'' @ [newline] @ ''%s'')
                             [PyInt (stat_count stat),
                              PyFloat (truediv_1024 (unat (stat_size stat))),
                              PyStr (join [newline] (stat_traceback stat))])
           (take (nat (mt_trace (fst demo_checked))) (statistics demo_facility 7 Traceback))"
    by blast
  have "unat (3072 :: 64 word) < 2 ^ 53"
    by simp
  with t have "truediv_1024 (unat (3072 :: 64 word)) = rat_of_nat (unat (3072 :: 64 word)) / 1024"
    by blast
  then have k: "truediv_1024 3072 = 3"
    by simp
  from n show ?thesis
    unfolding f g by (simp add: demo_stats_def k)
qed

subsection \<open>Return values and the scope\<close>

text \<open>
  Claim C10 (return value of start). On a disabled tracer \<open>start\<close> returns the
  tracer itself. On an enabled tracer \<open>start\<close> never returns anything but
  \<open>None\<close>, and it does return \<open>None\<close> when tracing is off and the facility accepts
  the frame count. \<open>__enter__\<close> returns exactly when \<open>start\<close> returns, leaves the
  state \<open>start\<close> left, and whenever it returns it returns the tracer itself.
\<close>

theorem start_return_value:
  "(mt_disabled tr \<longrightarrow> fst (start F s tr w) = Returned PySelf)
   \<and> (\<not> mt_disabled tr \<longrightarrow>
        (\<forall>v. fst (start F s tr w) = Returned v \<longrightarrow> v = PyNone)
        \<and> (\<not> tracing w \<and> nframe_ok F (mt_nframe tr) \<longrightarrow> fst (start F s tr w) = Returned PyNone))
   \<and> (\<forall>v. fst (enter F s tr w) = Returned v \<longrightarrow> v = PySelf)
   \<and> ((\<exists>v. fst (enter F s tr w) = Returned v) \<longleftrightarrow> (\<exists>v. fst (start F s tr w) = Returned v))
   \<and> snd (enter F s tr w) = snd (start F s tr w)"
proof (intro conjI impI allI)
  assume "mt_disabled tr"
  then show "fst (start F s tr w) = Returned PySelf"
    by (simp add: start_def)
next
  fix v
  assume d: "\<not> mt_disabled tr" and r: "fst (start F s tr w) = Returned v"
  obtain tr1 w1 where "start F s tr w = (Returned v, tr1, w1)"
    using r by (cases "start F s tr w") auto
  from start_returned [OF d this] show "v = PyNone"
    by simp
next
  assume "\<not> mt_disabled tr" "\<not> tracing w \<and> nframe_ok F (mt_nframe tr)"
  then show "fst (start F s tr w) = Returned PyNone"
    by (simp add: start_enabled_ok)
next
  fix v
  assume "fst (enter F s tr w) = Returned v"
  then show "v = PySelf"
    by (cases "start F s tr w"; cases "fst (start F s tr w)") (auto simp: enter_def)
next
  show "(\<exists>v. fst (enter F s tr w) = Returned v) \<longleftrightarrow> (\<exists>v. fst (start F s tr w) = Returned v)"
    by (cases "start F s tr w"; cases "fst (start F s tr w)") (auto simp: enter_def)
next
  show "snd (enter F s tr w) = snd (start F s tr w)"
    by (cases "start F s tr w"; cases "fst (start F s tr w)") (auto simp: enter_def)
qed

theorem start_return_value_witness:
  "fst (start demo_facility 4 (init 20 1 25 True True) demo_world) = Returned PySelf
   \<and> fst (start demo_facility 0 demo_tracer demo_world) = Returned PyNone
   \<and> fst (enter demo_facility 0 demo_tracer demo_world) = Returned PySelf
   \<and> fst (enter demo_facility 4 (init 20 1 25 True True) demo_world) = Returned PySelf"
proof -
  have h: "mt_disabled (init 20 1 25 True True :: nat tracer)"
    by (simp add: init_def)
  have e: "\<not> mt_disabled demo_tracer" "\<not> tracing demo_world"
    "nframe_ok demo_facility (mt_nframe demo_tracer)"
    by (simp_all add: demo_tracer_def init_def demo_world_def demo_facility_def)
  note a = start_return_value [of "init 20 1 25 True True" demo_facility 4 demo_world]
  note b = start_return_value [of demo_tracer demo_facility 0 demo_world]
  from a h have a1: "fst (start demo_facility 4 (init 20 1 25 True True) demo_world) = Returned PySelf"
    by blast
  from b e have b1: "fst (start demo_facility 0 demo_tracer demo_world) = Returned PyNone"
    by blast
  from b b1 have b2: "fst (enter demo_facility 0 demo_tracer demo_world) = Returned PySelf"
    by metis
  from a a1 have a2: "fst (enter demo_facility 4 (init 20 1 25 True True) demo_world) = Returned PySelf"
    by metis
  from a1 b1 b2 a2 show ?thesis by simp
qed

text \<open>
  Claim C5 (scoped cleanup), as stated for every tracer, does not hold. A
  disabled tracer is used as a scoped resource while other code has
  \<open>tracemalloc\<close> switched on, and the guarded code fails: \<open>start\<close> and \<open>stop\<close> are
  both called and both are no-ops, the error leaves the scope, and the facility
  is still tracing on exit.
\<close>

theorem scoped_cleanup_counterexample:
  "with_tracer demo_facility 0 failing_body (init 20 1 25 True True) busy_world
     = (Raised (RuntimeError ''boom''), init 20 1 25 True True, busy_world)
   \<and> tracing (snd (snd (with_tracer demo_facility 0 failing_body (init 20 1 25 True True) busy_world)))"
  by (simp add: with_tracer_def enter_def exit_def start_def stop_def failing_body_def
        init_def busy_world_def)

text \<open>
  Claim C5 (scoped cleanup), amended. Entering the scope calls \<open>start\<close>. Once
  \<open>start\<close> has returned, the guarded code runs with the tracer itself, and
  whatever its outcome, an error included, the scope ends with \<open>stop\<close> called on
  the state the guarded code left and with that outcome. Provided the guarded
  code leaves \<open>disabled\<close> as constructed: for an enabled tracer the facility is
  not tracing on exit, the last calls being \<open>tracemalloc.stop()\<close> and the log
  line of the stop; for a disabled tracer \<open>stop\<close> is a no-op and the scope ends
  in the state the guarded code left.
\<close>

theorem scoped_cleanup:
  assumes "start F snap tr w = (Returned v, tr1, w1)"
    and "body PySelf tr1 w1 = (r, tr2, w2)"
    and "mt_disabled tr2 = mt_disabled tr"
  shows "with_tracer F snap body tr w = (r, snd (stop tr2 w2))
       \<and> (\<not> mt_disabled tr \<longrightarrow>
            \<not> tracing (snd (snd (with_tracer F snap body tr w)))
            \<and> new_events w2 (snd (snd (with_tracer F snap body tr w)))
                = [TracemallocStop, Log ''Stopped memory tracer'' []])
       \<and> (mt_disabled tr \<longrightarrow> with_tracer F snap body tr w = (r, tr2, w2))"
proof -
  have a: "with_tracer F snap body tr w = (r, snd (stop tr2 w2))"
    using assms(1,2) by (rule with_tracer_entered)
  have b: "\<not> tracing (snd (snd (with_tracer F snap body tr w)))
      \<and> new_events w2 (snd (snd (with_tracer F snap body tr w)))
                = [TracemallocStop, Log ''Stopped memory tracer'' []]" if "\<not> mt_disabled tr"
  proof -
    from that assms(3) have "\<not> mt_disabled tr2" by simp
    from stop_enabled [OF this, of w2] show ?thesis
      unfolding a by (simp add: new_events_def)
  qed
  have c: "with_tracer F snap body tr w = (r, tr2, w2)" if "mt_disabled tr"
  proof -
    from that assms(3) have "mt_disabled tr2" by simp
    then show ?thesis unfolding a by (simp add: stop_def)
  qed
  from a b c show ?thesis by blast
qed

theorem scoped_cleanup_witness:
  "fst (with_tracer demo_facility 0 demo_body demo_tracer demo_world) = Raised (RuntimeError ''boom'')
   \<and> \<not> tracing (snd (snd (with_tracer demo_facility 0 demo_body demo_tracer demo_world)))"
proof -
  let ?u = "update demo_facility 7 (fst demo_started) (snd demo_started)"
  have h1: "start demo_facility 0 demo_tracer demo_world
              = (Returned PyNone, fst demo_started, snd demo_started)"
    by (simp add: demo_started_def start_def demo_tracer_def init_def demo_world_def
          demo_facility_def Let_def emit_def)
  have d: "\<not> mt_disabled (fst demo_started)" "mt_start (fst demo_started) = Some 0"
    "mt_prev (fst demo_started) = Some 0"
    by (simp_all add: demo_started_eval demo_tracer_def init_def)
  from update_enabled [OF d(1) demo_started_eval(2) d(2,3), of demo_facility 7]
  have r: "fst ?u = Returned PyNone"
    by auto
  have h2: "demo_body PySelf (fst demo_started) (snd demo_started)
              = (Raised (RuntimeError ''boom''), fst (snd ?u), snd (snd ?u))"
    using r by (cases ?u) (simp add: demo_body_def)
  have h3: "mt_disabled (fst (snd ?u)) = mt_disabled demo_tracer"
    by (simp add: update_disabled demo_started_eval)
  have e: "\<not> mt_disabled demo_tracer"
    by (simp add: demo_tracer_def init_def)
  note t = scoped_cleanup [where body = demo_body, OF h1 h2 h3]
  from t have "with_tracer demo_facility 0 demo_body demo_tracer demo_world
      = (Raised (RuntimeError ''boom''), snd (stop (fst (snd ?u)) (snd (snd ?u))))"
    by blast
  then have a: "fst (with_tracer demo_facility 0 demo_body demo_tracer demo_world)
      = Raised (RuntimeError ''boom'')"
    by (simp only: fst_conv)
  from t e have "\<not> tracing (snd (snd (with_tracer demo_facility 0 demo_body demo_tracer demo_world)))"
    by blast
  with a show ?thesis
    by blast
qed

end
